theory Spec2Isabelle
  imports Complex_Main
begin

section \<open>Machine arithmetic of the interpolator\<close>

text \<open>
  \<^verbatim>\<open>TimeInterpolator.cpp\<close> computes with \<^verbatim>\<open>int64_t\<close> microseconds and with one
  \<^verbatim>\<open>double\<close>, the time factor.

  \<^item> An \<^verbatim>\<open>int64_t\<close> is an \<^typ>\<open>int\<close> in the range \<open>fits64\<close>. Addition and
    subtraction wrap around in two's complement (\<open>add64\<close>, \<open>sub64\<close>), as the
    processors the code runs on compute them. A theorem that writes the sum or the
    difference of the integers assumes that it fits.
  \<^item> Integer division \<^verbatim>\<open>a / b\<close> truncates toward zero (\<open>cdiv\<close>), where HOL's
    \<open>div\<close> rounds down. The code divides by 2 and by 4 only, which cannot overflow.
  \<^item> A finite \<^verbatim>\<open>double\<close> is the \<^typ>\<open>real\<close> it denotes. Every arithmetic
    operation and every conversion from \<^verbatim>\<open>int64_t\<close> rounds its exact result to
    the nearest binary64 number, ties to the even significand (\<open>rnd64\<close>); each
    operation rounds on its own, without extended precision and without a fused
    multiplication and addition.
  \<^item> The conversion of a \<^verbatim>\<open>double\<close> to \<^verbatim>\<open>int64_t\<close> discards the fraction and
    is undefined when the result does not fit: \<open>int64_of_d\<close> returns \<open>None\<close> there,
    and so does every function that makes such a conversion.
  \<^item> Infinities and NaN are not values of the model. A product or a sum beyond
    the binary64 range is an infinity in the code and a number beyond the
    \<^verbatim>\<open>int64_t\<close> range in the model; both go to a conversion that is undefined. A
    division by zero gives an infinity or a NaN in the code: \<open>ddiv\<close> returns \<open>None\<close>.
\<close>

definition fits64 :: "int \<Rightarrow> bool" where
  "fits64 x = (- (2 ^ 63) \<le> x \<and> x < 2 ^ 63)"

definition wrap64 :: "int \<Rightarrow> int" where
  "wrap64 x = (x + 2 ^ 63) mod 2 ^ 64 - 2 ^ 63"

definition add64 :: "int \<Rightarrow> int \<Rightarrow> int" where
  "add64 a b = wrap64 (a + b)"

definition sub64 :: "int \<Rightarrow> int \<Rightarrow> int" where
  "sub64 a b = wrap64 (a - b)"

definition cdiv :: "int \<Rightarrow> int \<Rightarrow> int" where
  "cdiv a b = sgn a * sgn b * (\<bar>a\<bar> div \<bar>b\<bar>)"

text \<open>The number of binary digits of a positive integer (0 for the others).\<close>

function bitlen :: "int \<Rightarrow> int" where
  "bitlen n = (if n \<le> 0 then 0 else 1 + bitlen (n div 2))"
  by pat_completeness auto
termination
  by (relation "measure nat") auto

declare bitlen.simps [simp del]

text \<open>
  \<open>floor_log2 x\<close> is the binary exponent of a non-zero \<open>x\<close>: the \<open>p\<close> with
  \<open>pow2 p \<le> \<bar>x\<bar> < pow2 (p + 1)\<close> (lemma \<open>floor_log2_bounds\<close> below). It is
  computed from the digits of \<open>\<lfloor>\<bar>x\<bar>\<rfloor>\<close>, or of \<open>\<lceil>1 / \<bar>x\<bar>\<rceil> - 1\<close> when \<open>\<bar>x\<bar> < 1\<close>.
\<close>

definition pow2 :: "int \<Rightarrow> real" where
  "pow2 e = (if 0 \<le> e then 2 ^ nat e else 1 / 2 ^ nat (- e))"

definition floor_log2 :: "real \<Rightarrow> int" where
  "floor_log2 x = (if 1 \<le> \<bar>x\<bar> then bitlen \<lfloor>\<bar>x\<bar>\<rfloor> - 1
                   else - bitlen (\<lceil>1 / \<bar>x\<bar>\<rceil> - 1))"

text \<open>Rounding to the nearest integer, a tie going to the even one.\<close>

definition rne :: "real \<Rightarrow> int" where
  "rne x = (let f = \<lfloor>x\<rfloor>; r = x - of_int f
            in if r < 1/2 then f else if 1/2 < r then f + 1
               else if even f then f else f + 1)"

text \<open>
  The exponent of the unit in the last place of a binary64 number near \<open>x\<close>: 53
  significant bits, and no exponent below that of the subnormal numbers.
\<close>

definition ulp_exp :: "real \<Rightarrow> int" where
  "ulp_exp x = max (floor_log2 x - 52) (- 1074)"

definition rnd64 :: "real \<Rightarrow> real" where
  "rnd64 x = of_int (rne (x / pow2 (ulp_exp x))) * pow2 (ulp_exp x)"

definition d_of_int :: "int \<Rightarrow> real" where
  "d_of_int n = rnd64 (of_int n)"

definition dadd :: "real \<Rightarrow> real \<Rightarrow> real" where
  "dadd x y = rnd64 (x + y)"

definition dsub :: "real \<Rightarrow> real \<Rightarrow> real" where
  "dsub x y = rnd64 (x - y)"

definition dmul :: "real \<Rightarrow> real \<Rightarrow> real" where
  "dmul x y = rnd64 (x * y)"

definition ddiv :: "real \<Rightarrow> real \<Rightarrow> real option" where
  "ddiv x y = (if y = 0 then None else Some (rnd64 (x / y)))"

text \<open>
  \<open>trunc_d\<close> discards the fraction of a double; the conversion \<^verbatim>\<open>int64_t(x)\<close> is
  defined where that integer fits.
\<close>

definition trunc_d :: "real \<Rightarrow> int" where
  "trunc_d x = (if 0 \<le> x then \<lfloor>x\<rfloor> else \<lceil>x\<rceil>)"

definition int64_of_d :: "real \<Rightarrow> int option" where
  "int64_of_d x = (if fits64 (trunc_d x) then Some (trunc_d x) else None)"


section \<open>The interpolator object\<close>

datatype state_t = STOPPED | ROLLING | PAUSED

datatype input_t = STOP | SEEK | PAUSE | POST_BUFFER | ERR_UNDERRUN | ERR_OVERRUN

record TimeInterpolator =
  m_state :: state_t
  m_Tf :: real
  m_t0 :: int
  m_pos0 :: int
  m_read :: int
  m_queued :: int
  m_latency :: int
  m_last :: int
  m_now_last :: int

text \<open>
  Every member function takes the object and returns it updated. The mutex and the
  log calls have no effect on the members and are left out. A function that calls
  \<^verbatim>\<open>get_system_usecs()\<close> takes the value the monotonic clock returns as the
  argument \<open>now\<close>.
\<close>

definition DEFAULT_AUDIO_LATENCY :: int where
  "DEFAULT_AUDIO_LATENCY = 20000 * 4 * 2"

definition usecs_queued :: "TimeInterpolator \<Rightarrow> int" where
  "usecs_queued ti = m_queued ti"

definition read_pointer :: "TimeInterpolator \<Rightarrow> int" where
  "read_pointer ti = add64 (m_read ti) (m_queued ti)"

definition set_latency :: "int \<Rightarrow> TimeInterpolator \<Rightarrow> TimeInterpolator" where
  "set_latency lat_usecs ti =
     (if 0 < lat_usecs then ti\<lparr>m_latency := lat_usecs\<rparr>
      else ti\<lparr>m_latency := DEFAULT_AUDIO_LATENCY\<rparr>)"

text \<open>
  \<^verbatim>\<open>set_state\<close> returns early when the state is already the requested one; its
  \<^verbatim>\<open>switch\<close> only logs, whatever the input \<open>i\<close>.
\<close>

definition set_state :: "state_t \<Rightarrow> input_t \<Rightarrow> TimeInterpolator \<Rightarrow> TimeInterpolator" where
  "set_state s i ti = (if m_state ti = s then ti else ti\<lparr>m_state := s\<rparr>)"

definition seek :: "int \<Rightarrow> int \<Rightarrow> TimeInterpolator \<Rightarrow> TimeInterpolator" where
  "seek media_time now ti =
     (if m_state ti = STOPPED \<or> m_state ti = PAUSED then
        ti\<lparr>m_pos0 := media_time, m_read := media_time, m_queued := 0, m_t0 := now,
           m_Tf := 0, m_last := media_time, m_now_last := 0\<rparr>
      else
        ti\<lparr>m_read := media_time, m_pos0 := sub64 media_time (m_latency ti),
           m_queued := 0, m_t0 := now, m_Tf := 1,
           m_last := sub64 media_time (m_latency ti), m_now_last := 0\<rparr>)"

text \<open>
  The constructor sets the state and the latency and calls \<^verbatim>\<open>seek(0)\<close>; \<open>u\<close> is
  the object before construction, whose members hold whatever the memory held.
\<close>

definition TimeInterpolator_new :: "int \<Rightarrow> TimeInterpolator \<Rightarrow> TimeInterpolator" where
  "TimeInterpolator_new now u =
     seek 0 now (u\<lparr>m_state := STOPPED, m_latency := DEFAULT_AUDIO_LATENCY\<rparr>)"

text \<open>
  \<^verbatim>\<open>pause\<close> keeps the position to seek to in the local \<^verbatim>\<open>seek_to\<close>, which
  starts at \<open>-1\<close>, and seeks only when the local is not negative.
\<close>

definition pause :: "bool \<Rightarrow> int \<Rightarrow> TimeInterpolator \<Rightarrow> TimeInterpolator" where
  "pause flushing_fifo now ti =
     (let (seek_to, ti1) =
        (if flushing_fifo then
           (let t = set_state STOPPED STOP ti in (add64 (m_read t) (m_queued t), t))
         else if m_state ti = ROLLING then
           (- 1, (set_state PAUSED PAUSE ti)
                   \<lparr>m_read := add64 (m_read ti) (m_queued ti), m_pos0 := m_last ti,
                    m_t0 := now, m_queued := 0\<rparr>)
         else (- 1, ti))
      in if 0 \<le> seek_to then seek seek_to now ti1 else ti1)"

definition stop :: "int \<Rightarrow> TimeInterpolator \<Rightarrow> TimeInterpolator" where
  "stop now ti = pause True now ti"

text \<open>\<^verbatim>\<open>reset\<close> reads the clock in \<^verbatim>\<open>stop()\<close> and again in \<^verbatim>\<open>seek(0)\<close>.\<close>

definition reset :: "int \<Rightarrow> int \<Rightarrow> TimeInterpolator \<Rightarrow> TimeInterpolator" where
  "reset now now' ti = seek 0 now' (stop now ti)"

definition resume :: "int \<Rightarrow> TimeInterpolator \<Rightarrow> TimeInterpolator" where
  "resume now ti = ti\<lparr>m_t0 := now, m_Tf := 1\<rparr>"

definition err_underrun :: "TimeInterpolator \<Rightarrow> TimeInterpolator" where
  "err_underrun ti =
     set_state STOPPED ERR_UNDERRUN
       (ti\<lparr>m_Tf := 0, m_read := add64 (m_read ti) (m_queued ti),
           m_pos0 := add64 (m_read ti) (m_queued ti), m_queued := 0\<rparr>)"

text \<open>
  \<^verbatim>\<open>err_overrun\<close> reads the clock twice; the first value goes to a local that is
  never used, the second, \<open>now'\<close>, becomes \<^verbatim>\<open>m_t0\<close>.
\<close>

definition err_overrun :: "int \<Rightarrow> TimeInterpolator \<Rightarrow> TimeInterpolator" where
  "err_overrun now' ti =
     (if m_state ti = ROLLING then
        ti\<lparr>m_pos0 := sub64 (m_read ti) (m_latency ti), m_t0 := now'\<rparr>
      else ti)"

definition forcibly_update_read_pointer :: "int \<Rightarrow> TimeInterpolator \<Rightarrow> TimeInterpolator" where
  "forcibly_update_read_pointer rp ti = ti\<lparr>m_read := sub64 rp (m_queued ti)\<rparr>"

text \<open>
  \<^verbatim>\<open>get_stream_usecs\<close> returns the media time and the updated object, or \<open>None\<close>
  when its conversion of \<^verbatim>\<open>dt\<close> is undefined.
\<close>

definition get_stream_usecs ::
  "int \<Rightarrow> TimeInterpolator \<Rightarrow> (int \<times> TimeInterpolator) option" where
  "get_stream_usecs now ti =
     (if m_state ti = PAUSED then Some (m_pos0 ti, ti)
      else
        let dt = dmul (m_Tf ti) (d_of_int (sub64 now (m_t0 ti)));
            dt = (if dt < 0 then 0 else dt)
        in case int64_of_d dt of
             None \<Rightarrow> None
           | Some n \<Rightarrow>
               let t_media = add64 (m_pos0 ti) n;
                   (t_media, ti1) =
                     (if read_pointer ti \<le> t_media \<and> m_state ti = ROLLING
                      then (read_pointer ti, err_underrun ti) else (t_media, ti))
               in Some (t_media, ti1\<lparr>m_last := t_media, m_now_last := now\<rparr>))"


section \<open>\<^verbatim>\<open>post_buffer\<close>\<close>

text \<open>
  The body of \<^verbatim>\<open>post_buffer\<close> is cut at its comments: the start-up logic
  (\<open>startup\<close>, \<open>cold_start\<close>), the main algorithm up to the assignment of
  \<^verbatim>\<open>m_queued\<close> (\<open>feedback\<close>), the clamping of the time factor (\<open>clamp_Tf\<close>) and the
  underrun check after it (\<open>clamp_detect\<close>).
\<close>

text \<open>
  The first test of the start-up logic: the object after it and the flag
  \<^verbatim>\<open>set_Tf_to_unity\<close>.
\<close>

definition startup :: "TimeInterpolator \<Rightarrow> TimeInterpolator \<times> bool" where
  "startup ti =
     (if m_state ti \<noteq> ROLLING \<and> m_state ti = PAUSED
      then (set_state ROLLING POST_BUFFER ti, True) else (ti, False))"

definition cold_start :: "int \<Rightarrow> int \<Rightarrow> TimeInterpolator \<Rightarrow> TimeInterpolator" where
  "cold_start frame_usecs now ti =
     (let initial_offset = cdiv (m_latency ti) 2;
          ti1 = ti\<lparr>m_t0 := now\<rparr>;
          ti2 = set_state ROLLING POST_BUFFER ti1;
          ti3 = ti2\<lparr>m_read := add64 (m_read ti2) frame_usecs\<rparr>;
          initial_offset = (if initial_offset < 40000 then 40000 else initial_offset)
      in ti3\<lparr>m_pos0 := sub64 (m_read ti3) initial_offset, m_queued := 0, m_Tf := 1\<rparr>)"

text \<open>The double \<^verbatim>\<open>m_pos0 + m_Tf * dt\<close>, before it is converted to \<^verbatim>\<open>pos1\<close>.\<close>

definition pos1_d :: "int \<Rightarrow> TimeInterpolator \<Rightarrow> real" where
  "pos1_d dt ti = dadd (d_of_int (m_pos0 ti)) (dmul (m_Tf ti) (d_of_int dt))"

definition feedback ::
  "int \<Rightarrow> int \<Rightarrow> bool \<Rightarrow> TimeInterpolator \<Rightarrow> TimeInterpolator option" where
  "feedback frame_usecs t1 set_Tf_to_unity ti =
     (let dt = sub64 t1 (m_t0 ti);
          ti1 = ti\<lparr>m_read := add64 (m_read ti) (m_queued ti)\<rparr>
      in case int64_of_d (pos1_d dt ti1) of
           None \<Rightarrow> None
         | Some pos1 \<Rightarrow>
             let pos1_desired = sub64 (m_read ti1) (m_latency ti1);
                 e = d_of_int (sub64 pos1 pos1_desired)
             in case (if set_Tf_to_unity then Some 1
                      else map_option (dsub 1) (ddiv e (d_of_int (m_latency ti1)))) of
                  None \<Rightarrow> None
                | Some Tf \<Rightarrow>
                    Some (ti1\<lparr>m_Tf := Tf, m_pos0 := pos1, m_t0 := t1,
                              m_queued := frame_usecs\<rparr>))"

definition clamp_Tf :: "int \<Rightarrow> TimeInterpolator \<Rightarrow> TimeInterpolator" where
  "clamp_Tf now' ti =
     (if 2 \<le> m_Tf ti then err_overrun now' (ti\<lparr>m_Tf := 2\<rparr>)
      else if m_Tf ti < 1/2 then ti\<lparr>m_Tf := 1/2\<rparr>
      else ti)"

definition clamp_detect :: "int \<Rightarrow> TimeInterpolator \<Rightarrow> TimeInterpolator" where
  "clamp_detect now' ti =
     (let ti1 = clamp_Tf now' ti
      in if m_read ti1 \<le> m_pos0 ti1 then err_underrun ti1 else ti1)"

text \<open>
  \<open>now\<close> is the first clock value the call reads (in the cold start, or as
  \<^verbatim>\<open>t1\<close>), \<open>now'\<close> the one \<^verbatim>\<open>err_overrun\<close> stores if it runs. The outer
  test \<^verbatim>\<open>m_state != ROLLING\<close> is made once, on the state at entry; the test for
  STOPPED inside it sees the state after the test for PAUSED has run.
\<close>

definition post_buffer ::
  "int \<Rightarrow> int \<Rightarrow> int \<Rightarrow> TimeInterpolator \<Rightarrow> TimeInterpolator option" where
  "post_buffer frame_usecs now now' ti =
     (let (ti1, set_Tf_to_unity) = startup ti
      in if m_state ti \<noteq> ROLLING \<and> m_state ti1 = STOPPED
         then Some (cold_start frame_usecs now ti1)
         else
           let t1 = now;
               dt = sub64 t1 (m_t0 ti1);
               aggregate_buffers = (m_state ti1 = ROLLING \<and> dt < cdiv frame_usecs 4)
           in if \<not> aggregate_buffers
              then map_option (clamp_detect now') (feedback frame_usecs t1 set_Tf_to_unity ti1)
              else Some (ti1\<lparr>m_queued := add64 (m_queued ti1) frame_usecs\<rparr>))"

text \<open>
  The path condition of the aggregation branch, in terms of the object before the
  call: the call did not start from \<open>STOPPED\<close> (a call from \<open>PAUSED\<close> has moved to
  \<open>ROLLING\<close> when the test is made) and \<^verbatim>\<open>dt < frame_usecs / 4\<close>.
\<close>

definition takes_aggregation_path :: "int \<Rightarrow> int \<Rightarrow> TimeInterpolator \<Rightarrow> bool" where
  "takes_aggregation_path frame_usecs now ti =
     (m_state ti \<noteq> STOPPED \<and> sub64 now (m_t0 ti) < cdiv frame_usecs 4)"

text \<open>
  Successive calls of \<^verbatim>\<open>get_stream_usecs\<close>, one per clock value of the list;
  \<open>None\<close> as soon as one of them is undefined.
\<close>

fun get_stream_usecs_seq ::
  "int list \<Rightarrow> TimeInterpolator \<Rightarrow> (int list \<times> TimeInterpolator) option" where
  "get_stream_usecs_seq [] ti = Some ([], ti)"
| "get_stream_usecs_seq (now # nows) ti =
     (case get_stream_usecs now ti of
        None \<Rightarrow> None
      | Some (t, ti1) \<Rightarrow>
          (case get_stream_usecs_seq nows ti1 of
             None \<Rightarrow> None
           | Some (ts, ti2) \<Rightarrow> Some (t # ts, ti2)))"


section \<open>Scenarios\<close>

text \<open>
  The object the constructor returns when the clock reads \<open>now\<close> (lemma
  \<open>TimeInterpolator_new_fresh\<close>), and the object of scenario S1 of the
  specification: latency 100 000, then a first \<^verbatim>\<open>post_buffer(20000)\<close>, here at
  clock value 5 000 000 (lemma \<open>scenario_S1_run\<close>).
\<close>

definition fresh :: "int \<Rightarrow> TimeInterpolator" where
  "fresh now =
     \<lparr>m_state = STOPPED, m_Tf = 0, m_t0 = now, m_pos0 = 0, m_read = 0, m_queued = 0,
      m_latency = DEFAULT_AUDIO_LATENCY, m_last = 0, m_now_last = 0\<rparr>"

definition scenario_S1 :: TimeInterpolator where
  "scenario_S1 =
     \<lparr>m_state = ROLLING, m_Tf = 1, m_t0 = 5000000, m_pos0 = - 30000, m_read = 20000,
      m_queued = 0, m_latency = 100000, m_last = 0, m_now_last = 0\<rparr>"


text \<open>Scenario S1 followed by a read 10 000 us later (lemma \<open>scenario_read_run\<close>).\<close>

definition scenario_read :: TimeInterpolator where
  "scenario_read =
     \<lparr>m_state = ROLLING, m_Tf = 1, m_t0 = 5000000, m_pos0 = - 30000, m_read = 20000,
      m_queued = 0, m_latency = 100000, m_last = - 20000, m_now_last = 5010000\<rparr>"


section \<open>The rounding function\<close>

text \<open>
  \<open>rnd64\<close> is a rounding to nearest: the exponent it works with is the binary
  exponent of its argument, its error is at most half a unit in the last place, its
  result has a significand of at most 53 bits, and the integers up to \<open>2 ^ 53\<close> in
  magnitude are converted exactly.
\<close>

lemma bitlen_nonpos: "n \<le> 0 \<Longrightarrow> bitlen n = 0"
  by (simp add: bitlen.simps)

lemma bitlen_pos: "0 < n \<Longrightarrow> bitlen n = 1 + bitlen (n div 2)"
  by (subst bitlen.simps) simp

lemma bitlen_ge0: "0 \<le> bitlen n"
  by (induction n rule: bitlen.induct) (subst bitlen.simps, simp)

lemma bitlen_bounds:
  "0 < n \<Longrightarrow> 2 ^ nat (bitlen n - 1) \<le> n \<and> n < 2 ^ nat (bitlen n)"
proof (induction n rule: bitlen.induct)
  case (1 n)
  show ?case
  proof (cases "n = 1")
    case True
    then show ?thesis by (simp add: bitlen_pos bitlen_nonpos)
  next
    case False
    with "1.prems" have h: "0 < n div 2" by presburger
    with "1.IH" "1.prems" have ih: "2 ^ nat (bitlen (n div 2) - 1) \<le> n div 2"
      "n div 2 < 2 ^ nat (bitlen (n div 2))" by simp_all
    define k where "k = nat (bitlen (n div 2) - 1)"
    have kpos: "1 \<le> bitlen (n div 2)"
      using bitlen_pos [OF h] bitlen_ge0 [of "n div 2 div 2"] by simp
    then have k1: "nat (bitlen (n div 2)) = Suc k" by (simp add: k_def)
    have bl: "bitlen n = 1 + bitlen (n div 2)" using "1.prems" by (rule bitlen_pos)
    have e1: "nat (bitlen n - 1) = Suc k" using bl k1 by simp
    have e2: "nat (bitlen n) = Suc (Suc k)" using bl kpos k1 by simp
    from ih have a: "(2::int) ^ k \<le> n div 2" and b: "n div 2 < 2 ^ Suc k"
      by (simp_all add: k_def [symmetric] k1)
    from a have "2 * 2 ^ k \<le> n" by presburger
    moreover from b have "n < 2 * 2 ^ Suc k" by presburger
    ultimately show ?thesis by (simp add: e1 e2)
  qed
qed

lemma pow2_pos: "0 < pow2 e"
  by (simp add: pow2_def)

lemma pow2_nat: "0 \<le> e \<Longrightarrow> pow2 e = 2 ^ nat e"
  by (simp add: pow2_def)

lemma pow2_powr: "pow2 e = 2 powr (real_of_int e)"
proof (cases "0 \<le> e")
  case True
  then show ?thesis by (simp add: pow2_def powr_realpow [symmetric])
next
  case False
  then have "2 powr (real_of_int e) = 1 / 2 powr (real_of_int (- e))"
    by (simp add: powr_minus_divide)
  also have "2 powr (real_of_int (- e)) = 2 ^ nat (- e)"
    using False by (simp add: powr_realpow [symmetric])
  finally show ?thesis using False by (simp add: pow2_def)
qed

lemma pow2_add: "pow2 (a + b) = pow2 a * pow2 b"
  by (simp add: pow2_powr powr_add)

lemma pow2_mono: "a \<le> b \<Longrightarrow> pow2 a \<le> pow2 b"
  by (simp add: pow2_powr)

lemma floor_log2_bounds:
  assumes "x \<noteq> 0"
  shows "pow2 (floor_log2 x) \<le> \<bar>x\<bar> \<and> \<bar>x\<bar> < pow2 (floor_log2 x + 1)"
proof (cases "1 \<le> \<bar>x\<bar>")
  case True
  define n where "n = \<lfloor>\<bar>x\<bar>\<rfloor>"
  have npos: "0 < n" using True by (simp add: n_def)
  have fl: "floor_log2 x = bitlen n - 1" using True by (simp add: floor_log2_def n_def)
  have b1: "1 \<le> bitlen n" using bitlen_pos [OF npos] bitlen_ge0 [of "n div 2"] by simp
  from bitlen_bounds [OF npos] have lo: "2 ^ nat (bitlen n - 1) \<le> n" and hi: "n < 2 ^ nat (bitlen n)"
    by simp_all
  have "real_of_int (2 ^ nat (bitlen n - 1)) \<le> real_of_int n" using lo by (simp only: of_int_le_iff)
  also have "real_of_int n \<le> \<bar>x\<bar>" by (simp add: n_def)
  finally have L: "pow2 (bitlen n - 1) \<le> \<bar>x\<bar>" using b1 by (simp add: pow2_nat)
  have "n + 1 \<le> 2 ^ nat (bitlen n)" using hi by simp
  then have "real_of_int (n + 1) \<le> real_of_int (2 ^ nat (bitlen n))" by (simp only: of_int_le_iff)
  moreover have "\<bar>x\<bar> < real_of_int (n + 1)" by (simp add: n_def)
  ultimately have U: "\<bar>x\<bar> < pow2 (bitlen n)" using b1 by (simp add: pow2_nat)
  from L U show ?thesis by (simp add: fl)
next
  case False
  define y where "y = 1 / \<bar>x\<bar>"
  have xpos: "0 < \<bar>x\<bar>" using assms by simp
  have y1: "1 < y" using False xpos by (simp add: y_def)
  define m where "m = \<lceil>y\<rceil> - 1"
  have mpos: "0 < m" using y1 by (simp add: m_def)
  have fl: "floor_log2 x = - bitlen m" using False by (simp add: floor_log2_def m_def y_def)
  have b1: "1 \<le> bitlen m" using bitlen_pos [OF mpos] bitlen_ge0 [of "m div 2"] by simp
  from bitlen_bounds [OF mpos] have lo: "2 ^ nat (bitlen m - 1) \<le> m" and hi: "m < 2 ^ nat (bitlen m)"
    by simp_all
  have "real_of_int m < y" unfolding m_def by linarith
  moreover have "y \<le> real_of_int m + 1" unfolding m_def by linarith
  ultimately have my: "real_of_int m < y" "y \<le> real_of_int m + 1" by simp_all
  have "m + 1 \<le> 2 ^ nat (bitlen m)" using hi by simp
  then have "real_of_int (m + 1) \<le> real_of_int (2 ^ nat (bitlen m))" by (simp only: of_int_le_iff)
  with my have yU: "y \<le> 2 ^ nat (bitlen m)" by simp
  have "real_of_int (2 ^ nat (bitlen m - 1)) \<le> real_of_int m" using lo by (simp only: of_int_le_iff)
  then have "(2::real) ^ nat (bitlen m - 1) \<le> real_of_int m" by simp
  with my have yL: "2 ^ nat (bitlen m - 1) < y" by linarith
  have x_eq: "\<bar>x\<bar> = 1 / y" using xpos by (simp add: y_def)
  have p1: "pow2 (- bitlen m) = 1 / 2 ^ nat (bitlen m)"
    using b1 by (simp add: pow2_def)
  have p2: "pow2 (- bitlen m + 1) = 1 / 2 ^ nat (bitlen m - 1)"
    using b1 by (auto simp: pow2_def nat_diff_distrib)
  have L: "pow2 (- bitlen m) \<le> \<bar>x\<bar>"
    unfolding p1 x_eq using yU y1 by (simp add: frac_le)
  have U: "\<bar>x\<bar> < pow2 (- bitlen m + 1)"
    unfolding p2 x_eq using yL y1 by (simp add: frac_less2)
  from L U show ?thesis by (simp add: fl)
qed


lemma rne_error: "\<bar>real_of_int (rne y) - y\<bar> \<le> 1/2"
  unfolding rne_def Let_def by (auto; linarith)

lemma rne_of_int: "rne (of_int n) = n"
  by (simp add: rne_def)

lemma rnd64_error: "\<bar>rnd64 x - x\<bar> \<le> pow2 (ulp_exp x) / 2"
proof -
  define u where "u = pow2 (ulp_exp x)"
  have u: "0 < u" by (simp add: u_def pow2_pos)
  have "rnd64 x - x = (real_of_int (rne (x / u)) - x / u) * u"
    using u by (simp add: rnd64_def u_def [symmetric] algebra_simps)
  then have "\<bar>rnd64 x - x\<bar> = \<bar>real_of_int (rne (x / u)) - x / u\<bar> * u"
    using u by (simp add: abs_mult)
  also have "\<dots> \<le> (1/2) * u"
    using rne_error [of "x / u"] u by (intro mult_right_mono) simp_all
  finally show ?thesis by (simp add: u_def)
qed

lemma floor_log2_less:
  assumes "x \<noteq> 0" and "\<bar>x\<bar> < pow2 k"
  shows "floor_log2 x < k"
proof (rule ccontr)
  assume "\<not> floor_log2 x < k"
  then have "pow2 k \<le> pow2 (floor_log2 x)" by (simp add: pow2_mono)
  with floor_log2_bounds [OF assms(1)] assms(2) show False by simp
qed

lemma rnd64_of_int_small:
  assumes "\<bar>n\<bar> < 2 ^ 53"
  shows "rnd64 (of_int n) = of_int n"
proof (cases "n = 0")
  case True
  then show ?thesis by (simp add: rnd64_def rne_def)
next
  case False
  define k where "k = nat (- ulp_exp (of_int n))"
  have "\<bar>real_of_int n\<bar> < pow2 53"
    using assms by (simp add: pow2_def flip: of_int_abs)
  with False have "floor_log2 (of_int n) < 53"
    by (intro floor_log2_less) simp_all
  then have le0: "ulp_exp (of_int n) \<le> 0" by (simp add: ulp_exp_def)
  have p: "pow2 (ulp_exp (of_int n)) = 1 / 2 ^ k"
  proof (cases "ulp_exp (real_of_int n) = 0")
    case True
    then show ?thesis by (simp add: pow2_def k_def)
  next
    case False
    with le0 show ?thesis by (simp add: pow2_def k_def)
  qed
  have "real_of_int n / (1 / 2 ^ k) = real_of_int (n * 2 ^ k)" by simp
  then have "rne (real_of_int n / (1 / 2 ^ k)) = n * 2 ^ k"
    by (simp only: rne_of_int)
  then show ?thesis by (simp add: rnd64_def p)
qed

lemma d_of_int_exact: "\<bar>n\<bar> \<le> 2 ^ 53 \<Longrightarrow> d_of_int n = of_int n"
proof -
  assume h: "\<bar>n\<bar> \<le> 2 ^ 53"
  have a: "rnd64 (2 ^ 53) = 2 ^ 53" by code_simp
  have b: "rnd64 (- (2 ^ 53)) = - (2 ^ 53)" by code_simp
  from h consider "\<bar>n\<bar> < 2 ^ 53" | "n = 2 ^ 53" | "n = - (2 ^ 53)" by linarith
  then show ?thesis
  proof cases
    case 1
    then show ?thesis by (simp add: d_of_int_def rnd64_of_int_small)
  next
    case 2
    then show ?thesis using a by (simp add: d_of_int_def)
  next
    case 3
    then show ?thesis using b by (simp add: d_of_int_def)
  qed
qed

lemma rnd64_0: "rnd64 0 = 0"
  by (simp add: rnd64_def rne_def)

lemma rne_le: "y \<le> real_of_int n \<Longrightarrow> rne y \<le> n"
  unfolding rne_def Let_def by (auto simp: floor_le_iff; linarith)

lemma rne_ge: "real_of_int n \<le> y \<Longrightarrow> n \<le> rne y"
  unfolding rne_def Let_def by (auto simp: le_floor_iff; linarith)

text \<open>The result of \<open>rnd64\<close> is an integer of at most 53 bits times its unit.\<close>

lemma rnd64_significand: "\<bar>rne (x / pow2 (ulp_exp x))\<bar> \<le> 2 ^ 53"
proof (cases "x = 0")
  case True
  then show ?thesis by (simp add: rne_def)
next
  case False
  define u where "u = pow2 (ulp_exp x)"
  have u: "0 < u" by (simp add: u_def pow2_pos)
  have "floor_log2 x + 1 \<le> ulp_exp x + 53" by (simp add: ulp_exp_def)
  then have "pow2 (floor_log2 x + 1) \<le> pow2 (ulp_exp x + 53)" by (rule pow2_mono)
  also have "\<dots> = u * pow2 53" by (simp only: pow2_add u_def)
  also have "pow2 53 = 2 ^ 53" by (simp add: pow2_def)
  finally have "\<bar>x\<bar> < u * 2 ^ 53" using floor_log2_bounds [OF False] by simp
  then have "\<bar>x / u\<bar> < 2 ^ 53" using u by (simp add: pos_divide_less_eq mult.commute)
  then have b: "x / u \<le> 2 ^ 53" "- (2 ^ 53) \<le> x / u" by linarith+
  have "rne (x / u) \<le> 2 ^ 53" using b(1) by (intro rne_le) simp
  moreover have "- (2 ^ 53) \<le> rne (x / u)" using b(2) by (intro rne_ge) simp
  ultimately have "\<bar>rne (x / u)\<bar> \<le> 2 ^ 53" by linarith
  then show ?thesis by (simp add: u_def)
qed

text \<open>
  \<open>rnd64\<close> is monotone and odd, so it keeps the sign and the order of the exact
  results.
\<close>

lemma rne_mono: "a \<le> b \<Longrightarrow> rne a \<le> rne b"
proof -
  assume ab: "a \<le> b"
  have fa: "\<lfloor>a\<rfloor> \<le> rne a" "rne a \<le> \<lfloor>a\<rfloor> + 1" for a
    by (simp_all add: rne_def Let_def)
  show ?thesis
  proof (cases "\<lfloor>a\<rfloor> = \<lfloor>b\<rfloor>")
    case True
    with ab show ?thesis by (auto simp: rne_def Let_def)
  next
    case False
    with ab have "\<lfloor>a\<rfloor> + 1 \<le> \<lfloor>b\<rfloor>" using floor_mono [OF ab] by linarith
    with fa(2) [of a] fa(1) [of b] show ?thesis by linarith
  qed
qed

lemma rne_minus: "rne (- a) = - rne a"
proof (cases "a = of_int \<lfloor>a\<rfloor>")
  case True
  then obtain n where "a = of_int n" ..
  then have "- a = of_int (- n)" by simp
  then show ?thesis unfolding \<open>a = of_int n\<close> by (simp only: rne_of_int)
next
  case False
  then have fl: "\<lfloor>- a\<rfloor> = - \<lfloor>a\<rfloor> - 1"
    by (metis (no_types) ceiling_altdef ceiling_def diff_minus_eq_add add_diff_cancel minus_diff_eq uminus_add_conv_diff)
  show ?thesis
    unfolding rne_def Let_def fl using False
    by (auto; linarith?)
qed


lemma rnd64_minus: "rnd64 (- x) = - rnd64 x"
proof -
  have "ulp_exp (- x) = ulp_exp x" by (simp add: ulp_exp_def floor_log2_def)
  then show ?thesis by (simp add: rnd64_def rne_minus)
qed

lemma rnd64_nonneg: "0 \<le> x \<Longrightarrow> 0 \<le> rnd64 x"
proof -
  assume "0 \<le> x"
  then have "real_of_int 0 \<le> x / pow2 (ulp_exp x)" using pow2_pos [of "ulp_exp x"] by simp
  then have "0 \<le> rne (x / pow2 (ulp_exp x))" by (rule rne_ge)
  then show ?thesis using pow2_pos [of "ulp_exp x"] by (simp add: rnd64_def)
qed

lemma pow2_less_cancel: "pow2 a < pow2 b \<Longrightarrow> a < b"
  by (simp add: pow2_powr)

lemma floor_log2_mono:
  assumes "0 < x" and "x \<le> y"
  shows "floor_log2 x \<le> floor_log2 y"
proof -
  from assms have x: "x \<noteq> 0" and y: "y \<noteq> 0" by simp_all
  from floor_log2_bounds [OF x] floor_log2_bounds [OF y] assms
  have "pow2 (floor_log2 x) < pow2 (floor_log2 y + 1)" by simp
  then have "floor_log2 x < floor_log2 y + 1" by (rule pow2_less_cancel)
  then show ?thesis by simp
qed

lemma rnd64_mono_pos:
  assumes "0 < x" and "x \<le> y"
  shows "rnd64 x \<le> rnd64 y"
proof -
  define ex where "ex = ulp_exp x"
  define ey where "ey = ulp_exp y"
  have ypos: "0 < y" using assms by simp
  have le: "ex \<le> ey"
    using floor_log2_mono [OF assms] by (simp add: ex_def ey_def ulp_exp_def)
  show ?thesis
  proof (cases "ex = ey")
    case True
    have "x / pow2 ex \<le> y / pow2 ex"
      using assms(2) pow2_pos [of ex] by (simp add: divide_right_mono)
    then have "rne (x / pow2 ex) \<le> rne (y / pow2 ex)" by (rule rne_mono)
    then have "real_of_int (rne (x / pow2 ex)) * pow2 ex \<le> real_of_int (rne (y / pow2 ex)) * pow2 ex"
      using pow2_pos [of ex] by (simp add: mult_right_mono)
    then show ?thesis
      unfolding rnd64_def ex_def [symmetric] ey_def [symmetric] True .
  next
    case False
    with le have lt: "ex + 1 \<le> ey" by simp
    then have "- 1074 < ey" unfolding ex_def ulp_exp_def by simp
    then have ey: "ey = floor_log2 y - 52" by (simp add: ey_def ulp_exp_def split: if_splits)
    have p52: "pow2 (ey + 52) = real_of_int (2 ^ 52) * pow2 ey"
      and p53: "pow2 (ex + 53) = real_of_int (2 ^ 53) * pow2 ex"
      by (simp_all add: pow2_add) (simp_all add: pow2_def)
    have "pow2 (ey + 52) \<le> y"
      using floor_log2_bounds [of y] ypos by (simp add: ey)
    then have "real_of_int (2 ^ 52) \<le> y / pow2 ey"
      unfolding p52 using pow2_pos [of ey] by (simp only: pos_le_divide_eq)
    then have "2 ^ 52 \<le> rne (y / pow2 ey)" by (rule rne_ge)
    then have "real_of_int (2 ^ 52) \<le> real_of_int (rne (y / pow2 ey))"
      by (simp only: of_int_le_iff)
    then have "real_of_int (2 ^ 52) * pow2 ey \<le> real_of_int (rne (y / pow2 ey)) * pow2 ey"
      using pow2_pos [of ey] by (intro mult_right_mono) simp_all
    then have Y: "pow2 (ey + 52) \<le> rnd64 y"
      unfolding p52 rnd64_def ey_def [symmetric] .
    have "rne (x / pow2 ex) \<le> 2 ^ 53"
      using rnd64_significand [of x] by (simp add: ex_def)
    then have "real_of_int (rne (x / pow2 ex)) \<le> real_of_int (2 ^ 53)"
      by (simp only: of_int_le_iff)
    then have "real_of_int (rne (x / pow2 ex)) * pow2 ex \<le> real_of_int (2 ^ 53) * pow2 ex"
      using pow2_pos [of ex] by (intro mult_right_mono) simp_all
    then have "rnd64 x \<le> pow2 (ex + 53)"
      unfolding p53 rnd64_def ex_def [symmetric] .
    also have "\<dots> \<le> pow2 (ey + 52)" using lt by (intro pow2_mono) simp
    also note Y
    finally show ?thesis .
  qed
qed

lemma rnd64_mono: "x \<le> y \<Longrightarrow> rnd64 x \<le> rnd64 y"
proof -
  assume xy: "x \<le> y"
  consider "0 < x" | "x \<le> 0" "0 \<le> y" | "y < 0" by linarith
  then show ?thesis
  proof cases
    case 1
    then show ?thesis using xy by (rule rnd64_mono_pos)
  next
    case 2
    have "0 \<le> rnd64 (- x)" using 2(1) by (intro rnd64_nonneg) simp
    then have "rnd64 x \<le> 0" by (simp add: rnd64_minus)
    also have "0 \<le> rnd64 y" using 2(2) by (rule rnd64_nonneg)
    finally show ?thesis .
  next
    case 3
    then have "0 < - y" and "- y \<le> - x" using xy by simp_all
    then have "rnd64 (- y) \<le> rnd64 (- x)" by (rule rnd64_mono_pos)
    then show ?thesis by (simp add: rnd64_minus)
  qed
qed

text \<open>Two textbook values: the binary64 numbers nearest to 0.1 and to 0.7.\<close>

lemma rnd64_tenth: "rnd64 (1 / 10) = 3602879701896397 / 2 ^ 55"
  by code_simp

lemma rnd64_seven_tenths: "rnd64 (7 / 10) = 6305039478318694 / 2 ^ 53"
  by code_simp


section \<open>The object between calls\<close>

lemma wrap64_fits: "fits64 x \<Longrightarrow> wrap64 x = x"
  by (simp add: fits64_def wrap64_def)

lemma fits64_wrap64: "fits64 (wrap64 x)"
  by (simp add: fits64_def wrap64_def)

lemma add64_fits: "fits64 (a + b) \<Longrightarrow> add64 a b = a + b"
  by (simp add: add64_def wrap64_fits)

lemma sub64_fits: "fits64 (a - b) \<Longrightarrow> sub64 a b = a - b"
  by (simp add: sub64_def wrap64_fits)

lemma int64_of_d_fits: "fits64 (trunc_d x) \<Longrightarrow> int64_of_d x = Some (trunc_d x)"
  by (simp add: int64_of_d_def)

text \<open>
  Outside the range the sums wrap and the conversion is undefined: a cold start
  on a read pointer at the largest \<^verbatim>\<open>int64_t\<close> leaves \<open>read\<close> at the smallest, and
  the double \<open>2 ^ 63\<close> has no conversion.
\<close>

lemma cold_start_wraps:
  "map_option m_read (post_buffer 1 5000000 5000000 (seek (2 ^ 63 - 1) 4000000 (fresh 3000000)))
     = Some (- (2 ^ 63))"
  by code_simp

lemma int64_of_d_undefined: "int64_of_d (dmul 2 (d_of_int (2 ^ 62))) = None"
  by code_simp

lemma d_of_int_pos: "0 < n \<Longrightarrow> 0 < d_of_int n"
proof -
  assume "0 < n"
  then have "(1::real) \<le> real_of_int n" by simp
  then have "rnd64 1 \<le> rnd64 (real_of_int n)" by (rule rnd64_mono)
  moreover have "rnd64 1 = 1" by code_simp
  ultimately show ?thesis by (simp add: d_of_int_def)
qed

lemma state_cases: "m_state ti = STOPPED \<or> m_state ti = ROLLING \<or> m_state ti = PAUSED"
  by (cases "m_state ti") simp_all

lemma TimeInterpolator_new_fresh: "TimeInterpolator_new now u = fresh now"
  by (simp add: TimeInterpolator_new_def seek_def fresh_def)

lemma scenario_S1_run:
  "post_buffer 20000 5000000 5000000 (set_latency 100000 (fresh 4000000)) = Some scenario_S1"
  by code_simp

lemma scenario_read_run:
  "get_stream_usecs 5010000 scenario_S1 = Some (- 20000, scenario_read)"
  by code_simp

text \<open>
  The latency is positive from the constructor on: only \<^verbatim>\<open>set_latency\<close> writes
  it, and it writes a positive value.
\<close>

lemma latency_new: "0 < m_latency (TimeInterpolator_new now u)"
  by (simp add: TimeInterpolator_new_fresh fresh_def DEFAULT_AUDIO_LATENCY_def)

lemma latency_set_latency: "0 < m_latency (set_latency l ti)"
  by (simp add: set_latency_def DEFAULT_AUDIO_LATENCY_def)

lemma latency_seek: "m_latency (seek m now ti) = m_latency ti"
  by (simp add: seek_def)

lemma latency_pause: "m_latency (pause b now ti) = m_latency ti"
  by (simp add: pause_def set_state_def seek_def Let_def)

lemma latency_resume: "m_latency (resume now ti) = m_latency ti"
  by (simp add: resume_def)

lemma latency_get_stream_usecs:
  "get_stream_usecs now ti = Some (t, ti') \<Longrightarrow> m_latency ti' = m_latency ti"
  by (auto simp: get_stream_usecs_def err_underrun_def set_state_def Let_def
      split: option.splits if_splits)

lemma latency_feedback: "feedback f t u ti = Some ti' \<Longrightarrow> m_latency ti' = m_latency ti"
  by (auto simp: feedback_def Let_def split: option.splits if_splits)

lemma latency_clamp_detect: "m_latency (clamp_detect now' ti) = m_latency ti"
  by (simp add: clamp_detect_def clamp_Tf_def err_overrun_def err_underrun_def
      set_state_def Let_def)

lemma latency_post_buffer:
  "post_buffer f now now' ti = Some ti' \<Longrightarrow> m_latency ti' = m_latency ti"
  by (auto simp: post_buffer_def startup_def cold_start_def set_state_def Let_def
      latency_clamp_detect dest!: latency_feedback split: if_splits)

lemma latency_forcibly_update_read_pointer:
  "m_latency (forcibly_update_read_pointer rp ti) = m_latency ti"
  by (simp add: forcibly_update_read_pointer_def)


section \<open>The properties of the specification\<close>

subsection \<open>The feedback update\<close>

text \<open>
  C1 (amended). A call \<^verbatim>\<open>post_buffer(f)\<close> made while ROLLING with a positive
  latency that does not take the aggregation path (so with \<^verbatim>\<open>set_Tf_to_unity\<close>
  false), and in which no \<^verbatim>\<open>int64_t\<close> operation of the main algorithm overflows,
  performs exactly this update before the time factor is clamped: \<open>read\<close> is
  increased by the amount queued before; \<open>pos1\<close> is \<open>pos0 + Tf * (now - t0)\<close>
  computed in double precision and cut to an integer; \<open>e\<close> is
  \<open>pos1 - (read - latency)\<close> as a double; the new \<open>Tf\<close> is \<open>1.0 - e / latency\<close>; then
  \<open>pos0 = pos1\<close>, \<open>t0 = now\<close> and \<open>queued = f\<close>. The clamping and the two error checks
  run on that object. In scenario S2 (after the cold start S1 with latency 100 000,
  the clock 20 000 us later, \<^verbatim>\<open>post_buffer(20000)\<close>) the resulting object has
  \<open>read = 20 000\<close> (the cold start left nothing queued), \<open>pos0 = -10 000\<close>,
  \<open>queued = 20 000\<close> and \<open>Tf = 0.5\<close>, the clamp of \<open>1 - 70 000 / 100 000\<close>.
\<close>

theorem post_buffer_feedback_update:
  assumes "m_state ti = ROLLING" and "0 < m_latency ti"
    and "fits64 (now - m_t0 ti)" and "\<not> now - m_t0 ti < cdiv f 4"
    and "fits64 (m_read ti + m_queued ti)"
    and "fits64 (m_read ti + m_queued ti - m_latency ti)"
    and "fits64 (trunc_d (pos1_d (now - m_t0 ti) ti))"
    and "fits64 (trunc_d (pos1_d (now - m_t0 ti) ti)
                  - (m_read ti + m_queued ti - m_latency ti))"
  shows "feedback f now False ti =
           Some (let read1 = m_read ti + m_queued ti;
                     pos1 = trunc_d (dadd (d_of_int (m_pos0 ti))
                                          (dmul (m_Tf ti) (d_of_int (now - m_t0 ti))));
                     e = d_of_int (pos1 - (read1 - m_latency ti))
                 in ti\<lparr>m_read := read1,
                       m_Tf := dsub 1 (rnd64 (e / d_of_int (m_latency ti))),
                       m_pos0 := pos1, m_t0 := now, m_queued := f\<rparr>)
       \<and> post_buffer f now now' ti = map_option (clamp_detect now') (feedback f now False ti)
       \<and> post_buffer 20000 5020000 5020000 scenario_S1 =
           Some \<lparr>m_state = ROLLING, m_Tf = 1/2, m_t0 = 5020000, m_pos0 = - 10000,
                 m_read = 20000, m_queued = 20000, m_latency = 100000, m_last = 0,
                 m_now_last = 0\<rparr>"
proof -
  have dt: "sub64 now (m_t0 ti) = now - m_t0 ti"
    using assms(3) by (rule sub64_fits)
  have rd: "add64 (m_read ti) (m_queued ti) = m_read ti + m_queued ti"
    using assms(5) by (rule add64_fits)
  have des: "sub64 (m_read ti + m_queued ti) (m_latency ti)
               = m_read ti + m_queued ti - m_latency ti"
    using assms(6) by (rule sub64_fits)
  have p: "pos1_d (now - m_t0 ti) (ti\<lparr>m_read := m_read ti + m_queued ti\<rparr>)
             = pos1_d (now - m_t0 ti) ti"
    by (simp add: pos1_d_def)
  have cast: "int64_of_d (pos1_d (now - m_t0 ti) ti) = Some (trunc_d (pos1_d (now - m_t0 ti) ti))"
    using assms(7) by (rule int64_of_d_fits)
  have er: "sub64 (trunc_d (pos1_d (now - m_t0 ti) ti)) (m_read ti + m_queued ti - m_latency ti)
              = trunc_d (pos1_d (now - m_t0 ti) ti) - (m_read ti + m_queued ti - m_latency ti)"
    using assms(8) by (rule sub64_fits)
  have lat: "d_of_int (m_latency ti) \<noteq> 0"
    using d_of_int_pos [OF assms(2)] by simp
  have "feedback f now False ti =
           Some (let read1 = m_read ti + m_queued ti;
                     pos1 = trunc_d (dadd (d_of_int (m_pos0 ti))
                                          (dmul (m_Tf ti) (d_of_int (now - m_t0 ti))));
                     e = d_of_int (pos1 - (read1 - m_latency ti))
                 in ti\<lparr>m_read := read1,
                       m_Tf := dsub 1 (rnd64 (e / d_of_int (m_latency ti))),
                       m_pos0 := pos1, m_t0 := now, m_queued := f\<rparr>)"
    unfolding feedback_def Let_def dt rd
    by (simp add: p cast des er lat ddiv_def) (simp add: pos1_d_def)
  moreover have "post_buffer f now now' ti =
      map_option (clamp_detect now') (feedback f now False ti)"
    using assms(1,4) by (simp add: post_buffer_def startup_def Let_def dt)
  moreover have "post_buffer 20000 5020000 5020000 scenario_S1 =
           Some \<lparr>m_state = ROLLING, m_Tf = 1/2, m_t0 = 5020000, m_pos0 = - 10000,
                 m_read = 20000, m_queued = 20000, m_latency = 100000, m_last = 0,
                 m_now_last = 0\<rparr>"
    by code_simp
  ultimately show ?thesis by blast
qed

text \<open>
  The witness is scenario S2 itself: the object before the clamp has the time factor
  that binary64 arithmetic gives for \<open>1 - 0.7\<close>.
\<close>

theorem post_buffer_feedback_update_witness:
  "m_state scenario_S1 = ROLLING \<and> 0 < m_latency scenario_S1
   \<and> fits64 (5020000 - m_t0 scenario_S1) \<and> \<not> 5020000 - m_t0 scenario_S1 < cdiv 20000 4
   \<and> fits64 (m_read scenario_S1 + m_queued scenario_S1)
   \<and> fits64 (m_read scenario_S1 + m_queued scenario_S1 - m_latency scenario_S1)
   \<and> fits64 (trunc_d (pos1_d (5020000 - m_t0 scenario_S1) scenario_S1))
   \<and> fits64 (trunc_d (pos1_d (5020000 - m_t0 scenario_S1) scenario_S1)
               - (m_read scenario_S1 + m_queued scenario_S1 - m_latency scenario_S1))
   \<and> post_buffer 20000 5020000 5020000 scenario_S1 =
       Some (clamp_detect 5020000
         \<lparr>m_state = ROLLING, m_Tf = 5404319552844596 / 2 ^ 54, m_t0 = 5020000,
          m_pos0 = - 10000, m_read = 20000, m_queued = 20000, m_latency = 100000,
          m_last = 0, m_now_last = 0\<rparr>)"
proof -
  have h1: "m_state scenario_S1 = ROLLING" by code_simp
  have h2: "0 < m_latency scenario_S1" by code_simp
  have h3: "fits64 (5020000 - m_t0 scenario_S1)" by code_simp
  have h4: "\<not> 5020000 - m_t0 scenario_S1 < cdiv 20000 4" by code_simp
  have h5: "fits64 (m_read scenario_S1 + m_queued scenario_S1)" by code_simp
  have h6: "fits64 (m_read scenario_S1 + m_queued scenario_S1 - m_latency scenario_S1)"
    by code_simp
  have h7: "fits64 (trunc_d (pos1_d (5020000 - m_t0 scenario_S1) scenario_S1))" by code_simp
  have h8: "fits64 (trunc_d (pos1_d (5020000 - m_t0 scenario_S1) scenario_S1)
               - (m_read scenario_S1 + m_queued scenario_S1 - m_latency scenario_S1))"
    by code_simp
  have r: "feedback 20000 5020000 False scenario_S1 =
         Some \<lparr>m_state = ROLLING, m_Tf = 5404319552844596 / 2 ^ 54, m_t0 = 5020000,
          m_pos0 = - 10000, m_read = 20000, m_queued = 20000, m_latency = 100000,
          m_last = 0, m_now_last = 0\<rparr>"
    by code_simp
  from post_buffer_feedback_update [OF h1 h2 h3 h4 h5 h6 h7 h8, where now' = 5020000]
  have "post_buffer 20000 5020000 5020000 scenario_S1 =
          map_option (clamp_detect 5020000) (feedback 20000 5020000 False scenario_S1)"
    by blast
  then have "post_buffer 20000 5020000 5020000 scenario_S1 =
       Some (clamp_detect 5020000
         \<lparr>m_state = ROLLING, m_Tf = 5404319552844596 / 2 ^ 54, m_t0 = 5020000,
          m_pos0 = - 10000, m_read = 20000, m_queued = 20000, m_latency = 100000,
          m_last = 0, m_now_last = 0\<rparr>)"
    by (simp add: r)
  with h1 h2 h3 h4 h5 h6 h7 h8 show ?thesis by blast
qed

text \<open>
  C1 as stated fails in its scenario: the cold start S1 adds the first frame to
  \<open>read\<close> and leaves \<open>queued = 0\<close>, so the second call adds nothing to \<open>read\<close>, which
  stays 20 000 and is not 40 000.
\<close>

theorem post_buffer_S2_counterexample:
  "map_option m_read (post_buffer 20000 5020000 5020000 scenario_S1) = Some 20000
   \<and> map_option m_read (post_buffer 20000 5020000 5020000 scenario_S1) \<noteq> Some 40000"
proof -
  have "post_buffer 20000 5020000 5020000 scenario_S1 =
           Some \<lparr>m_state = ROLLING, m_Tf = 1/2, m_t0 = 5020000, m_pos0 = - 10000,
                 m_read = 20000, m_queued = 20000, m_latency = 100000, m_last = 0,
                 m_now_last = 0\<rparr>"
    by code_simp
  then show ?thesis by simp
qed


subsection \<open>The cold start\<close>

lemma cdiv_2_max: "max (cdiv l 2) 40000 = max (l div 2) 40000"
proof -
  have "l < 0 \<Longrightarrow> - (- l div 2) \<le> 0 \<and> l div 2 \<le> 0" by presburger
  then show ?thesis by (auto simp: cdiv_def sgn_if max_def)
qed

text \<open>
  C2. For every latency and every \<open>f\<close>, \<^verbatim>\<open>post_buffer(f)\<close> in state STOPPED moves
  to ROLLING and sets \<open>read\<close> to its old value plus \<open>f\<close>,
  \<open>pos0 = read - max (latency / 2) 40000\<close>, \<open>queued = 0\<close>, \<open>Tf = 1.0\<close> and \<open>t0 = now\<close>,
  and does nothing else: the feedback step does not run. The sum and the
  difference are those of the integers where they fit an \<^verbatim>\<open>int64_t\<close>. The
  division is the truncating one of C++; under the maximum it agrees with the
  rounding down of \<open>div\<close>. With latency 100 000 and \<^verbatim>\<open>post_buffer(20000)\<close> on the
  object the constructor returns, \<open>read = 20 000\<close>, \<open>pos0 = -30 000\<close>, \<open>Tf = 1.0\<close>,
  \<open>queued = 0\<close>.
\<close>

theorem post_buffer_cold_start:
  assumes "m_state ti = STOPPED"
    and "fits64 (m_read ti + f)"
    and "fits64 (m_read ti + f - max (cdiv (m_latency ti) 2) 40000)"
  shows "post_buffer f now now' ti =
           Some (ti\<lparr>m_state := ROLLING, m_t0 := now, m_read := m_read ti + f,
                    m_pos0 := m_read ti + f - max (cdiv (m_latency ti) 2) 40000,
                    m_queued := 0, m_Tf := 1\<rparr>)
       \<and> max (cdiv (m_latency ti) 2) 40000 = max (m_latency ti div 2) 40000
       \<and> post_buffer 20000 now now' (set_latency 100000 (TimeInterpolator_new t u)) =
           Some \<lparr>m_state = ROLLING, m_Tf = 1, m_t0 = now, m_pos0 = - 30000,
                 m_read = 20000, m_queued = 0, m_latency = 100000, m_last = 0,
                 m_now_last = 0\<rparr>"
proof -
  have gen: "post_buffer f now now' ti =
           Some (ti\<lparr>m_state := ROLLING, m_t0 := now, m_read := m_read ti + f,
                    m_pos0 := m_read ti + f - max (cdiv (m_latency ti) 2) 40000,
                    m_queued := 0, m_Tf := 1\<rparr>)"
    if "m_state ti = STOPPED" and "fits64 (m_read ti + f)"
      and "fits64 (m_read ti + f - max (cdiv (m_latency ti) 2) 40000)" for ti f
  proof -
    have a: "add64 (m_read ti) f = m_read ti + f"
      using that(2) by (rule add64_fits)
    have b: "sub64 (m_read ti + f) (max (cdiv (m_latency ti) 2) 40000)
               = m_read ti + f - max (cdiv (m_latency ti) 2) 40000"
      using that(3) by (rule sub64_fits)
    have c: "(if cdiv (m_latency ti) 2 < 40000 then 40000 else cdiv (m_latency ti) 2)
               = max (cdiv (m_latency ti) 2) 40000"
      by (simp add: max_def)
    show ?thesis
      using that(1)
      by (simp add: post_buffer_def startup_def cold_start_def set_state_def Let_def a c b)
  qed
  have st: "m_state (set_latency 100000 (fresh t)) = STOPPED"
    by (simp add: set_latency_def fresh_def)
  have f1: "fits64 (m_read (set_latency 100000 (fresh t)) + 20000)"
    by (simp add: set_latency_def fresh_def fits64_def)
  have f2: "fits64 (m_read (set_latency 100000 (fresh t)) + 20000
              - max (cdiv (m_latency (set_latency 100000 (fresh t))) 2) 40000)"
    by (simp add: set_latency_def fresh_def fits64_def cdiv_def)
  have "post_buffer 20000 now now' (set_latency 100000 (TimeInterpolator_new t u)) =
           Some \<lparr>m_state = ROLLING, m_Tf = 1, m_t0 = now, m_pos0 = - 30000,
                 m_read = 20000, m_queued = 0, m_latency = 100000, m_last = 0,
                 m_now_last = 0\<rparr>"
    unfolding TimeInterpolator_new_fresh gen [OF st f1 f2]
    by (simp add: set_latency_def fresh_def cdiv_def)
  with gen [OF assms] cdiv_2_max show ?thesis by blast
qed

theorem post_buffer_cold_start_witness:
  "m_state (set_latency 100000 (fresh 4000000)) = STOPPED
   \<and> fits64 (m_read (set_latency 100000 (fresh 4000000)) + 20000)
   \<and> fits64 (m_read (set_latency 100000 (fresh 4000000)) + 20000
              - max (cdiv (m_latency (set_latency 100000 (fresh 4000000))) 2) 40000)
   \<and> post_buffer 20000 5000000 5000000 (set_latency 100000 (fresh 4000000)) =
       Some \<lparr>m_state = ROLLING, m_Tf = 1, m_t0 = 5000000, m_pos0 = - 30000,
             m_read = 20000, m_queued = 0, m_latency = 100000, m_last = 0,
             m_now_last = 0\<rparr>"
proof -
  have h1: "m_state (set_latency 100000 (fresh 4000000)) = STOPPED"
    by (simp add: set_latency_def fresh_def)
  have h2: "fits64 (m_read (set_latency 100000 (fresh 4000000)) + 20000)"
    by (simp add: set_latency_def fresh_def fits64_def)
  have h3: "fits64 (m_read (set_latency 100000 (fresh 4000000)) + 20000
              - max (cdiv (m_latency (set_latency 100000 (fresh 4000000))) 2) 40000)"
    by (simp add: set_latency_def fresh_def fits64_def cdiv_def)
  from post_buffer_cold_start [OF h1 h2 h3, where now = 5000000 and now' = 5000000]
  have "post_buffer 20000 5000000 5000000 (set_latency 100000 (fresh 4000000)) =
          Some ((set_latency 100000 (fresh 4000000))
            \<lparr>m_state := ROLLING, m_t0 := 5000000,
             m_read := m_read (set_latency 100000 (fresh 4000000)) + 20000,
             m_pos0 := m_read (set_latency 100000 (fresh 4000000)) + 20000
                        - max (cdiv (m_latency (set_latency 100000 (fresh 4000000))) 2) 40000,
             m_queued := 0, m_Tf := 1\<rparr>)"
    by blast
  then have "post_buffer 20000 5000000 5000000 (set_latency 100000 (fresh 4000000)) =
       Some \<lparr>m_state = ROLLING, m_Tf = 1, m_t0 = 5000000, m_pos0 = - 30000,
             m_read = 20000, m_queued = 0, m_latency = 100000, m_last = 0,
             m_now_last = 0\<rparr>"
    by (simp add: set_latency_def fresh_def cdiv_def)
  with h1 h2 h3 show ?thesis by blast
qed


subsection \<open>The bound on the time factor\<close>

lemma feedback_defined:
  assumes "fits64 (trunc_d (pos1_d (sub64 t1 (m_t0 ti)) ti))" and "0 < m_latency ti"
  shows "\<exists>fb. feedback f t1 u ti = Some fb \<and> m_state fb = m_state ti"
proof -
  have p: "pos1_d d (ti\<lparr>m_read := r\<rparr>) = pos1_d d ti" for d r
    by (simp add: pos1_d_def)
  have "d_of_int (m_latency ti) \<noteq> 0"
    using d_of_int_pos [OF assms(2)] by simp
  then show ?thesis
    using assms(1)
    by (simp add: feedback_def Let_def p int64_of_d_def ddiv_def)
qed

lemma clamp_Tf_bounds:
  "1/2 \<le> m_Tf (clamp_Tf now' t) \<and> m_Tf (clamp_Tf now' t) \<le> 2
   \<and> m_state (clamp_Tf now' t) = m_state t"
  by (simp add: clamp_Tf_def err_overrun_def)

lemma err_underrun_stops: "m_state (err_underrun t) = STOPPED \<and> m_Tf (err_underrun t) = 0"
  by (simp add: err_underrun_def set_state_def)

text \<open>
  C3 (amended). After a call of \<^verbatim>\<open>post_buffer\<close> that does not take the
  aggregation path, on an object with a positive latency and with a \<^verbatim>\<open>pos1\<close>
  that fits an \<^verbatim>\<open>int64_t\<close>, either the state is ROLLING and the time factor lies
  in the closed interval from 0.5 to 2.0, or the call has detected an underrun:
  the object after the clamp had \<open>read \<le> pos0\<close>, the result is what
  \<^verbatim>\<open>err_underrun\<close> makes of that object, the state is STOPPED and the time factor
  is 0.
\<close>

theorem post_buffer_Tf_bounded:
  assumes "0 < m_latency ti" and "\<not> takes_aggregation_path f now ti"
    and "m_state ti = STOPPED \<or> fits64 (trunc_d (pos1_d (sub64 now (m_t0 ti)) ti))"
  shows "\<exists>ti'. post_buffer f now now' ti = Some ti' \<and>
           ((m_state ti' = ROLLING \<and> 1/2 \<le> m_Tf ti' \<and> m_Tf ti' \<le> 2)
            \<or> (\<exists>fb. feedback f now (snd (startup ti)) (fst (startup ti)) = Some fb
                  \<and> m_read (clamp_Tf now' fb) \<le> m_pos0 (clamp_Tf now' fb)
                  \<and> ti' = err_underrun (clamp_Tf now' fb)
                  \<and> m_state ti' = STOPPED \<and> m_Tf ti' = 0))"
proof (cases "m_state ti = STOPPED")
  case True
  then show ?thesis
    by (simp add: post_buffer_def startup_def cold_start_def set_state_def Let_def)
next
  case False
  define s where "s = fst (startup ti)"
  define u where "u = snd (startup ti)"
  have su: "startup ti = (s, u)" by (simp add: s_def u_def)
  from False state_cases [of ti] have rolling: "m_state s = ROLLING"
    by (auto simp: s_def startup_def set_state_def)
  have same: "m_t0 s = m_t0 ti" "m_latency s = m_latency ti" "pos1_d d s = pos1_d d ti" for d
    by (simp_all add: s_def startup_def set_state_def pos1_d_def)
  from False assms(2) have dt: "\<not> sub64 now (m_t0 ti) < cdiv f 4"
    by (simp add: takes_aggregation_path_def)
  from False assms(3) have "fits64 (trunc_d (pos1_d (sub64 now (m_t0 s)) s))"
    by (simp add: same)
  moreover have "0 < m_latency s" using assms(1) by (simp add: same)
  ultimately obtain fb where fb: "feedback f now u s = Some fb" and "m_state fb = m_state s"
    using feedback_defined by blast
  with rolling have fbr: "m_state fb = ROLLING" by simp
  have pb: "post_buffer f now now' ti = Some (clamp_detect now' fb)"
    using rolling dt by (simp add: post_buffer_def su Let_def same fb)
  define c where "c = clamp_Tf now' fb"
  have cb: "1/2 \<le> m_Tf c" "m_Tf c \<le> 2" "m_state c = ROLLING"
    using clamp_Tf_bounds [of now' fb] fbr by (simp_all add: c_def)
  show ?thesis
  proof (cases "m_read c \<le> m_pos0 c")
    case True
    then have "clamp_detect now' fb = err_underrun c"
      by (simp add: clamp_detect_def Let_def c_def)
    with True pb fb err_underrun_stops [of c] show ?thesis
      by (simp add: c_def s_def u_def)
  next
    case False
    then have "clamp_detect now' fb = c"
      by (simp add: clamp_detect_def Let_def c_def)
    with pb cb show ?thesis by simp
  qed
qed

theorem post_buffer_Tf_bounded_witness:
  "0 < m_latency scenario_S1 \<and> \<not> takes_aggregation_path 20000 5020000 scenario_S1
   \<and> (m_state scenario_S1 = STOPPED
       \<or> fits64 (trunc_d (pos1_d (sub64 5020000 (m_t0 scenario_S1)) scenario_S1)))
   \<and> map_option m_state (post_buffer 20000 5020000 5020000 scenario_S1) = Some ROLLING
   \<and> map_option m_Tf (post_buffer 20000 5020000 5020000 scenario_S1) = Some (1/2)"
proof -
  have h1: "0 < m_latency scenario_S1" by code_simp
  have h2: "\<not> takes_aggregation_path 20000 5020000 scenario_S1" by code_simp
  have h3: "m_state scenario_S1 = STOPPED
       \<or> fits64 (trunc_d (pos1_d (sub64 5020000 (m_t0 scenario_S1)) scenario_S1))"
    by code_simp
  have r: "map_option m_Tf (post_buffer 20000 5020000 5020000 scenario_S1) = Some (1/2)"
    by code_simp
  from post_buffer_Tf_bounded [OF h1 h2 h3, of 5020000]
  obtain ti' where a: "post_buffer 20000 5020000 5020000 scenario_S1 = Some ti'"
    and b: "(m_state ti' = ROLLING \<and> 1/2 \<le> m_Tf ti' \<and> m_Tf ti' \<le> 2)
            \<or> (m_state ti' = STOPPED \<and> m_Tf ti' = 0)"
    by blast
  from a r have "m_Tf ti' = 1/2" by simp
  with b have "m_state ti' = ROLLING" by auto
  with a have "map_option m_state (post_buffer 20000 5020000 5020000 scenario_S1) = Some ROLLING"
    by simp
  with h1 h2 h3 r show ?thesis by blast
qed

text \<open>
  C3 as stated fails when the call detects an underrun. Ten seconds after the cold
  start S1 the projected position has passed \<open>read\<close>; the call takes the main path,
  clamps the time factor to 0.5 and then \<^verbatim>\<open>err_underrun\<close> sets it to 0.
\<close>

theorem post_buffer_Tf_counterexample:
  "\<not> takes_aggregation_path 20000 15000000 scenario_S1
   \<and> map_option m_Tf (post_buffer 20000 15000000 15000000 scenario_S1) = Some 0
   \<and> map_option m_state (post_buffer 20000 15000000 15000000 scenario_S1) = Some STOPPED"
proof -
  have h: "\<not> takes_aggregation_path 20000 15000000 scenario_S1" by code_simp
  have "post_buffer 20000 15000000 15000000 scenario_S1 =
          Some \<lparr>m_state = STOPPED, m_Tf = 0, m_t0 = 15000000, m_pos0 = 40000,
                m_read = 40000, m_queued = 0, m_latency = 100000, m_last = 0,
                m_now_last = 0\<rparr>"
    by code_simp
  with h show ?thesis by simp
qed


subsection \<open>Underrun on a read\<close>

text \<open>
  C4. If \<^verbatim>\<open>get_stream_usecs\<close> is called while ROLLING and the projected time
  \<open>pos0 + \<lfloor>Tf * max (now - t0) 0\<rfloor>\<close> is at least \<open>read + queued\<close>, then the call
  returns exactly \<open>read + queued\<close> as they were at the call, and afterwards the state
  is STOPPED with \<open>Tf = 0\<close>, \<open>read\<close> equal to the old \<open>read + queued\<close>, \<open>pos0 = read\<close>
  and \<open>queued = 0\<close>; the value returned is recorded in \<open>last\<close> and the clock in
  \<open>now_last\<close>, and nothing else changes. This holds where the clock difference,
  the sum \<open>read + queued\<close>, the converted \<^verbatim>\<open>dt\<close> and the time the code projects
  fit an \<^verbatim>\<open>int64_t\<close>. The product of the projected time may be read as the
  double-precision product the code computes, or as the exact product when the
  clock difference and the distance from \<open>pos0\<close> to \<open>read + queued\<close> are at most
  \<open>2 ^ 53\<close>, where binary64 holds every integer.
\<close>

theorem get_stream_usecs_underrun:
  assumes "m_state ti = ROLLING"
    and "fits64 (now - m_t0 ti)"
    and "fits64 (m_read ti + m_queued ti)"
    and "fits64 (trunc_d (max 0 (dmul (m_Tf ti) (d_of_int (now - m_t0 ti)))))"
    and "fits64 (m_pos0 ti + trunc_d (max 0 (dmul (m_Tf ti) (d_of_int (now - m_t0 ti)))))"
    and "m_read ti + m_queued ti
           \<le> m_pos0 ti + \<lfloor>dmul (m_Tf ti) (d_of_int (max (now - m_t0 ti) 0))\<rfloor>
       \<or> (now - m_t0 ti \<le> 2 ^ 53 \<and> \<bar>m_read ti + m_queued ti - m_pos0 ti\<bar> \<le> 2 ^ 53
          \<and> m_read ti + m_queued ti
               \<le> m_pos0 ti + \<lfloor>m_Tf ti * real_of_int (max (now - m_t0 ti) 0)\<rfloor>)"
  shows "get_stream_usecs now ti =
     Some (m_read ti + m_queued ti,
           ti\<lparr>m_state := STOPPED, m_Tf := 0, m_read := m_read ti + m_queued ti,
              m_pos0 := m_read ti + m_queued ti, m_queued := 0,
              m_last := m_read ti + m_queued ti, m_now_last := now\<rparr>)"
proof -
  define d where "d = max (now - m_t0 ti) 0"
  define N where "N = m_read ti + m_queued ti - m_pos0 ti"
  have proj: "N \<le> \<lfloor>dmul (m_Tf ti) (d_of_int d)\<rfloor>"
    using assms(6)
  proof
    assume "m_read ti + m_queued ti
              \<le> m_pos0 ti + \<lfloor>dmul (m_Tf ti) (d_of_int (max (now - m_t0 ti) 0))\<rfloor>"
    then show ?thesis by (simp add: N_def d_def)
  next
    assume ex: "now - m_t0 ti \<le> 2 ^ 53 \<and> \<bar>m_read ti + m_queued ti - m_pos0 ti\<bar> \<le> 2 ^ 53
          \<and> m_read ti + m_queued ti
               \<le> m_pos0 ti + \<lfloor>m_Tf ti * real_of_int (max (now - m_t0 ti) 0)\<rfloor>"
    then have "\<bar>d\<bar> \<le> 2 ^ 53" by (simp add: d_def)
    then have dd: "d_of_int d = real_of_int d" by (rule d_of_int_exact)
    from ex have "\<bar>N\<bar> \<le> 2 ^ 53" by (simp add: N_def)
    then have "d_of_int N = real_of_int N" by (rule d_of_int_exact)
    then have nn: "rnd64 (real_of_int N) = real_of_int N" by (simp add: d_of_int_def)
    from ex have "N \<le> \<lfloor>m_Tf ti * real_of_int d\<rfloor>" by (simp add: N_def d_def)
    then have "real_of_int N \<le> m_Tf ti * real_of_int d" by (simp add: le_floor_iff)
    then have "rnd64 (real_of_int N) \<le> rnd64 (m_Tf ti * real_of_int d)" by (rule rnd64_mono)
    then have "real_of_int N \<le> dmul (m_Tf ti) (d_of_int d)" by (simp add: nn dd dmul_def)
    then show ?thesis by (simp add: le_floor_iff)
  qed
  define P where "P = dmul (m_Tf ti) (d_of_int (now - m_t0 ti))"
  define dt where "dt = (if P < 0 then 0 else P)"
  have dtmax: "dt = max 0 P" by (simp add: dt_def max_def)
  have "\<lfloor>dmul (m_Tf ti) (d_of_int d)\<rfloor> \<le> trunc_d dt"
  proof (cases "0 \<le> now - m_t0 ti")
    case True
    then have "dmul (m_Tf ti) (d_of_int d) = P"
      by (simp add: P_def d_def max_def)
    moreover have "\<lfloor>P\<rfloor> \<le> trunc_d dt"
      by (auto simp: dt_def trunc_d_def intro: floor_mono)
    ultimately show ?thesis by simp
  next
    case False
    then have "dmul (m_Tf ti) (d_of_int d) = 0"
      by (simp add: d_def max_def dmul_def d_of_int_def rnd64_0)
    moreover have "0 \<le> trunc_d dt"
      by (simp add: dt_def trunc_d_def)
    ultimately show ?thesis by simp
  qed
  with proj have le: "m_read ti + m_queued ti \<le> m_pos0 ti + trunc_d dt"
    by (simp add: N_def)
  have sub: "sub64 now (m_t0 ti) = now - m_t0 ti"
    using assms(2) by (rule sub64_fits)
  have rp: "add64 (m_read ti) (m_queued ti) = m_read ti + m_queued ti"
    using assms(3) by (rule add64_fits)
  have cast: "int64_of_d dt = Some (trunc_d dt)"
    using assms(4) unfolding dtmax P_def by (rule int64_of_d_fits)
  have tm: "add64 (m_pos0 ti) (trunc_d dt) = m_pos0 ti + trunc_d dt"
    using assms(5) unfolding dtmax P_def by (rule add64_fits)
  show ?thesis
    using assms(1) le
    by (simp add: get_stream_usecs_def Let_def sub P_def [symmetric] dt_def [symmetric]
        cast tm read_pointer_def rp err_underrun_def set_state_def)
qed

text \<open>The witness is scenario S4: a read ten seconds after the cold start S1.\<close>

theorem get_stream_usecs_underrun_witness:
  "m_state scenario_S1 = ROLLING
   \<and> fits64 (15000000 - m_t0 scenario_S1)
   \<and> fits64 (m_read scenario_S1 + m_queued scenario_S1)
   \<and> fits64 (trunc_d (max 0 (dmul (m_Tf scenario_S1)
                                   (d_of_int (15000000 - m_t0 scenario_S1)))))
   \<and> fits64 (m_pos0 scenario_S1
              + trunc_d (max 0 (dmul (m_Tf scenario_S1)
                                     (d_of_int (15000000 - m_t0 scenario_S1)))))
   \<and> m_read scenario_S1 + m_queued scenario_S1
        \<le> m_pos0 scenario_S1
            + \<lfloor>dmul (m_Tf scenario_S1) (d_of_int (max (15000000 - m_t0 scenario_S1) 0))\<rfloor>
   \<and> get_stream_usecs 15000000 scenario_S1 =
       Some (20000,
        \<lparr>m_state = STOPPED, m_Tf = 0, m_t0 = 5000000, m_pos0 = 20000, m_read = 20000,
         m_queued = 0, m_latency = 100000, m_last = 20000, m_now_last = 15000000\<rparr>)"
proof -
  have h1: "m_state scenario_S1 = ROLLING" by code_simp
  have h2: "fits64 (15000000 - m_t0 scenario_S1)" by code_simp
  have h3: "fits64 (m_read scenario_S1 + m_queued scenario_S1)" by code_simp
  have h4: "fits64 (trunc_d (max 0 (dmul (m_Tf scenario_S1)
                                   (d_of_int (15000000 - m_t0 scenario_S1)))))"
    by code_simp
  have h5: "fits64 (m_pos0 scenario_S1
              + trunc_d (max 0 (dmul (m_Tf scenario_S1)
                                     (d_of_int (15000000 - m_t0 scenario_S1)))))"
    by code_simp
  have h6: "m_read scenario_S1 + m_queued scenario_S1
        \<le> m_pos0 scenario_S1
            + \<lfloor>dmul (m_Tf scenario_S1) (d_of_int (max (15000000 - m_t0 scenario_S1) 0))\<rfloor>"
    by code_simp
  from get_stream_usecs_underrun [OF h1 h2 h3 h4 h5 disjI1, OF h6]
  have "get_stream_usecs 15000000 scenario_S1 =
       Some (20000,
        \<lparr>m_state = STOPPED, m_Tf = 0, m_t0 = 5000000, m_pos0 = 20000, m_read = 20000,
         m_queued = 0, m_latency = 100000, m_last = 20000, m_now_last = 15000000\<rparr>)"
    by (simp add: scenario_S1_def)
  with h1 h2 h3 h4 h5 h6 show ?thesis by blast
qed


subsection \<open>Flushing pause and stop\<close>

text \<open>
  Where \<open>read + queued\<close> fits an \<^verbatim>\<open>int64_t\<close> and is not negative, \<^verbatim>\<open>pause(true)\<close>
  moves to STOPPED and then performs \<^verbatim>\<open>seek(read + queued)\<close>, from every state.
\<close>

lemma pause_flush_seeks:
  assumes "fits64 (m_read ti + m_queued ti)" and "0 \<le> m_read ti + m_queued ti"
  shows "pause True now ti = seek (m_read ti + m_queued ti) now (ti\<lparr>m_state := STOPPED\<rparr>)
       \<and> pause True now ti =
           ti\<lparr>m_state := STOPPED, m_pos0 := m_read ti + m_queued ti,
              m_read := m_read ti + m_queued ti, m_queued := 0, m_t0 := now, m_Tf := 0,
              m_last := m_read ti + m_queued ti, m_now_last := 0\<rparr>"
  using assms(2) add64_fits [OF assms(1)]
  by (simp add: pause_def set_state_def seek_def Let_def)

text \<open>
  Where \<open>read + queued\<close> is negative the seek is skipped and only the state
  changes: the time factor and the epoch stay as they were.
\<close>

lemma pause_flush_negative:
  assumes "fits64 (m_read ti + m_queued ti)" and "m_read ti + m_queued ti < 0"
  shows "pause True now ti = ti\<lparr>m_state := STOPPED\<rparr>"
  using assms(2) add64_fits [OF assms(1)]
  by (simp add: pause_def set_state_def Let_def)

text \<open>
  C5 (the code departs from it). The claim: from every state and for every value
  of \<open>read\<close> and \<open>queued\<close>, \<^verbatim>\<open>pause(true)\<close> moves to STOPPED and performs
  \<^verbatim>\<open>seek(read + queued)\<close>, so that afterwards \<open>pos0 = read = last\<close>, \<open>queued = 0\<close>,
  \<open>Tf = 0\<close> and \<open>t0 = now\<close>. The code at a negative read pointer: after the cold
  start S1 and a \<^verbatim>\<open>seek(-50000)\<close> while ROLLING, \<^verbatim>\<open>pause(true)\<close> changes the
  state and nothing else; the object is STOPPED with \<open>Tf = 1\<close>, \<open>pos0 = -150 000\<close>,
  \<open>read = -50 000\<close> and the \<open>t0\<close> of the seek, and the clock that the class comment
  calls frozen in STOPPED goes on: the next two reads return 1 850 000 and
  2 850 000.
\<close>

theorem pause_flush_negative_read_pointer:
  "pause True 7000000 (seek (- 50000) 6000000 scenario_S1) =
     \<lparr>m_state = STOPPED, m_Tf = 1, m_t0 = 6000000, m_pos0 = - 150000, m_read = - 50000,
      m_queued = 0, m_latency = 100000, m_last = - 150000, m_now_last = 0\<rparr>
   \<and> map_option fst
        (get_stream_usecs_seq [8000000, 9000000]
           (pause True 7000000 (seek (- 50000) 6000000 scenario_S1)))
       = Some [1850000, 2850000]"
proof -
  have a: "pause True 7000000 (seek (- 50000) 6000000 scenario_S1) =
     \<lparr>m_state = STOPPED, m_Tf = 1, m_t0 = 6000000, m_pos0 = - 150000, m_read = - 50000,
      m_queued = 0, m_latency = 100000, m_last = - 150000, m_now_last = 0\<rparr>"
    by code_simp
  have b: "map_option fst
        (get_stream_usecs_seq [8000000, 9000000]
           (pause True 7000000 (seek (- 50000) 6000000 scenario_S1)))
       = Some [1850000, 2850000]"
    by code_simp
  from a b show ?thesis by blast
qed

text \<open>
  C7. For every starting state and clock value, the object after \<^verbatim>\<open>stop()\<close> is
  the object after \<^verbatim>\<open>pause(true)\<close>, field for field.
\<close>

theorem stop_eq_pause_flush: "stop now ti = pause True now ti"
  by (simp add: stop_def)


subsection \<open>Pause freezes time\<close>

lemma get_stream_usecs_paused:
  "m_state p = PAUSED \<Longrightarrow> get_stream_usecs now p = Some (m_pos0 p, p)"
  by (simp add: get_stream_usecs_def)

lemma get_stream_usecs_seq_paused:
  "m_state p = PAUSED \<Longrightarrow>
   get_stream_usecs_seq nows p = Some (replicate (length nows) (m_pos0 p), p)"
  by (induction nows) (simp_all add: get_stream_usecs_paused)

text \<open>
  C6. \<^verbatim>\<open>pause(false)\<close> from ROLLING enters PAUSED with \<open>pos0\<close> pinned to \<open>last\<close>,
  the last time reported; from then on every call of \<^verbatim>\<open>get_stream_usecs\<close>
  returns that \<open>pos0\<close> and changes no member, so any sequence of such calls, at any
  clock values, returns the same value every time and leaves the object as it was.
\<close>

theorem paused_time_frozen:
  assumes "m_state ti = ROLLING"
  shows "m_state (pause False now ti) = PAUSED
       \<and> m_pos0 (pause False now ti) = m_last ti
       \<and> get_stream_usecs t (pause False now ti) = Some (m_last ti, pause False now ti)
       \<and> get_stream_usecs_seq nows (pause False now ti) =
           Some (replicate (length nows) (m_last ti), pause False now ti)"
proof -
  have p: "m_state (pause False now ti) = PAUSED"
    and q: "m_pos0 (pause False now ti) = m_last ti"
    using assms by (simp_all add: pause_def set_state_def)
  from get_stream_usecs_seq_paused [OF p] get_stream_usecs_paused [OF p] p q
  show ?thesis by simp
qed

text \<open>
  The witness reads once while ROLLING, 10 000 us after the cold start S1 (the
  time reported is \<open>-20 000\<close>), pauses, and reads three more times.
\<close>

theorem paused_time_frozen_witness:
  "get_stream_usecs 5010000 scenario_S1 = Some (- 20000, scenario_read)
   \<and> m_state scenario_read = ROLLING
   \<and> map_option fst (get_stream_usecs_seq [5030000, 5500000, 9000000]
                        (pause False 5020000 scenario_read))
       = Some [- 20000, - 20000, - 20000]"
proof -
  have h: "m_state scenario_read = ROLLING" by (simp add: scenario_read_def)
  have l: "m_last scenario_read = - 20000" by (simp add: scenario_read_def)
  from paused_time_frozen [OF h, where now = 5020000 and nows = "[5030000, 5500000, 9000000]"] l
  have "map_option fst (get_stream_usecs_seq [5030000, 5500000, 9000000]
                        (pause False 5020000 scenario_read))
       = Some [- 20000, - 20000, - 20000]"
    by simp
  with h scenario_read_run show ?thesis by blast
qed


subsection \<open>Aggregation\<close>

text \<open>
  C8. While ROLLING, a call \<^verbatim>\<open>post_buffer(f)\<close> with \<open>now - t0 < f / 4\<close> (the
  integer division of C++) adds \<open>f\<close> to \<open>queued\<close> and leaves every other member
  (state, \<open>t0\<close>, \<open>pos0\<close>, \<open>Tf\<close>, \<open>read\<close>, latency, \<open>last\<close>, \<open>now_last\<close>) unchanged;
  so a second such call adds its own amount to \<open>queued\<close> as well and the epoch has
  not advanced. The clock differences and the sums are those of the integers where
  they fit an \<^verbatim>\<open>int64_t\<close>.
\<close>

theorem post_buffer_aggregates:
  assumes "m_state ti = ROLLING"
    and "fits64 (now - m_t0 ti)" and "now - m_t0 ti < cdiv f 4"
    and "fits64 (m_queued ti + f)"
  shows "post_buffer f now now' ti = Some (ti\<lparr>m_queued := m_queued ti + f\<rparr>)
       \<and> (fits64 (later - m_t0 ti) \<and> later - m_t0 ti < cdiv g 4
            \<and> fits64 (m_queued ti + f + g) \<longrightarrow>
            Option.bind (post_buffer f now now' ti) (post_buffer g later later') =
              Some (ti\<lparr>m_queued := m_queued ti + f + g\<rparr>))"
proof -
  have one: "post_buffer h t t' s = Some (s\<lparr>m_queued := m_queued s + h\<rparr>)"
    if "m_state s = ROLLING" and "fits64 (t - m_t0 s)" and "t - m_t0 s < cdiv h 4"
      and "fits64 (m_queued s + h)" for h t t' s
    using that(1,3) sub64_fits [OF that(2)] add64_fits [OF that(4)]
    by (simp add: post_buffer_def startup_def Let_def)
  have "post_buffer g later later' (ti\<lparr>m_queued := m_queued ti + f\<rparr>) =
          Some (ti\<lparr>m_queued := m_queued ti + f + g\<rparr>)"
    if "fits64 (later - m_t0 ti)" and "later - m_t0 ti < cdiv g 4"
      and "fits64 (m_queued ti + f + g)"
    using that assms(1) by (subst one) simp_all
  with one [OF assms] show ?thesis by simp
qed

text \<open>
  The witness is scenario S3: ROLLING with \<open>Tf = 1.0\<close>, a first
  \<^verbatim>\<open>post_buffer(40000)\<close> 2 000 us after the epoch and a second one 3 000 us
  later; afterwards \<open>queued = 80 000\<close> and nothing else has changed.
\<close>

theorem post_buffer_aggregates_witness:
  "m_state scenario_S1 = ROLLING
   \<and> fits64 (5002000 - m_t0 scenario_S1) \<and> 5002000 - m_t0 scenario_S1 < cdiv 40000 4
   \<and> fits64 (m_queued scenario_S1 + 40000)
   \<and> fits64 (5005000 - m_t0 scenario_S1) \<and> 5005000 - m_t0 scenario_S1 < cdiv 40000 4
   \<and> fits64 (m_queued scenario_S1 + 40000 + 40000)
   \<and> post_buffer 40000 5002000 5002000 scenario_S1 = Some (scenario_S1\<lparr>m_queued := 40000\<rparr>)
   \<and> Option.bind (post_buffer 40000 5002000 5002000 scenario_S1)
        (post_buffer 40000 5005000 5005000) =
       Some (scenario_S1\<lparr>m_queued := 80000\<rparr>)"
proof -
  have h1: "m_state scenario_S1 = ROLLING"
    by (simp add: scenario_S1_def)
  have h2: "fits64 (5002000 - m_t0 scenario_S1)"
    by (simp add: scenario_S1_def fits64_def)
  have h3: "5002000 - m_t0 scenario_S1 < cdiv 40000 4"
    by (simp add: scenario_S1_def cdiv_def)
  have h4: "fits64 (m_queued scenario_S1 + 40000)"
    by (simp add: scenario_S1_def fits64_def)
  have h5: "fits64 (5005000 - m_t0 scenario_S1)"
    by (simp add: scenario_S1_def fits64_def)
  have h6: "5005000 - m_t0 scenario_S1 < cdiv 40000 4"
    by (simp add: scenario_S1_def cdiv_def)
  have h7: "fits64 (m_queued scenario_S1 + 40000 + 40000)"
    by (simp add: scenario_S1_def fits64_def)
  have q: "m_queued scenario_S1 = 0"
    by (simp add: scenario_S1_def)
  from post_buffer_aggregates [OF h1 h2 h3 h4, where now' = 5002000 and later = 5005000
      and g = 40000 and later' = 5005000] h5 h6 h7
  have a: "post_buffer 40000 5002000 5002000 scenario_S1 =
             Some (scenario_S1\<lparr>m_queued := m_queued scenario_S1 + 40000\<rparr>)"
    and b: "Option.bind (post_buffer 40000 5002000 5002000 scenario_S1)
              (post_buffer 40000 5005000 5005000) =
             Some (scenario_S1\<lparr>m_queued := m_queued scenario_S1 + 40000 + 40000\<rparr>)"
    by blast+
  from a q have a': "post_buffer 40000 5002000 5002000 scenario_S1 =
             Some (scenario_S1\<lparr>m_queued := 40000\<rparr>)"
    by simp
  from b q have b': "Option.bind (post_buffer 40000 5002000 5002000 scenario_S1)
              (post_buffer 40000 5005000 5005000) =
             Some (scenario_S1\<lparr>m_queued := 80000\<rparr>)"
    by simp
  from h1 h2 h3 h4 h5 h6 h7 a' b' show ?thesis by blast
qed


subsection \<open>Seek and resume\<close>

text \<open>
  C9 (amended). For every state and every media time \<open>m\<close>, \<^verbatim>\<open>seek(m)\<close> followed
  by another \<^verbatim>\<open>seek(m)\<close> with no call in between gives the object that the first
  \<^verbatim>\<open>seek(m)\<close> alone gives, except for \<open>t0\<close>, which holds the clock value the
  second call has read; the two objects are identical when both calls read the
  same clock value.
\<close>

theorem seek_twice:
  "seek m now' (seek m now ti) = (seek m now ti)\<lparr>m_t0 := now'\<rparr>
   \<and> seek m now (seek m now ti) = seek m now ti"
  by (simp add: seek_def)

text \<open>
  C9 as stated fails once the clock has moved between the two calls: each
  \<^verbatim>\<open>seek\<close> reads the clock into \<open>t0\<close>. On the object the constructor returns, a
  \<^verbatim>\<open>seek(0)\<close> at clock value 5 000 000 and a second one at 6 000 000 leave
  \<open>t0 = 6 000 000\<close>, where the first alone leaves \<open>t0 = 5 000 000\<close>.
\<close>

theorem seek_twice_counterexample:
  "seek 0 6000000 (seek 0 5000000 (fresh 4000000)) \<noteq> seek 0 5000000 (fresh 4000000)
   \<and> m_t0 (seek 0 6000000 (seek 0 5000000 (fresh 4000000))) = 6000000
   \<and> m_t0 (seek 0 5000000 (fresh 4000000)) = 5000000"
proof -
  have a: "m_t0 (seek 0 6000000 (seek 0 5000000 (fresh 4000000))) = 6000000"
    and b: "m_t0 (seek 0 5000000 (fresh 4000000)) = 5000000"
    by (simp_all add: seek_def fresh_def)
  have "seek 0 6000000 (seek 0 5000000 (fresh 4000000)) \<noteq> seek 0 5000000 (fresh 4000000)"
  proof
    assume "seek 0 6000000 (seek 0 5000000 (fresh 4000000)) = seek 0 5000000 (fresh 4000000)"
    then have "m_t0 (seek 0 6000000 (seek 0 5000000 (fresh 4000000)))
                 = m_t0 (seek 0 5000000 (fresh 4000000))"
      by simp
    with a b show False by simp
  qed
  with a b show ?thesis by blast
qed

text \<open>
  C10. In every state, \<^verbatim>\<open>resume()\<close> sets \<open>t0 = now\<close> and \<open>Tf = 1.0\<close> and changes
  nothing else; the state member stays as it is, and the two assignments are made
  whether or not the state is PAUSED.
\<close>

theorem resume_effect:
  "resume now ti = ti\<lparr>m_t0 := now, m_Tf := 1\<rparr>
   \<and> m_state (resume now ti) = m_state ti
   \<and> m_t0 (resume now ti) = now \<and> m_Tf (resume now ti) = 1"
  by (simp add: resume_def)

end
